theory Spec2Isabelle
  imports Complex_Main "HOL-Library.Sublist" "HOL-Library.Word"
begin

section \<open>GigOptimizer: the project selection engine of app.py\<close>

text \<open>
  The engine is the function \<^verbatim>\<open>optimize_projects\<close> of app.py. It filters the
  candidate projects by skill match, states the choice as a 0/1 linear program, hands it
  to \<^verbatim>\<open>scipy.optimize.milp\<close> and reads the selection and its metrics off the
  solver's answer.

  Numbers: the data frame columns hold Python ints or floats. They are modelled as
  rationals, that is with exact arithmetic; rounding of floats is outside the model.
  Where the exact arithmetic is that of the code is stated below (\<open>exact_range\<close>);
  frames with int64 columns, whose sums wrap around, have a model of their own.
\<close>

subsection \<open>Data\<close>

text \<open>One row of the projects data frame (the columns of \<^verbatim>\<open>create_sample_projects\<close>).\<close>

record project =
  project_name :: string
  client :: string
  total_pay :: rat
  hours_required :: rat
  deadline_days :: rat
  skill_match :: rat

text \<open>The dictionary \<^verbatim>\<open>optimization_results\<close> built on the success path.\<close>

record optimization_results =
  total_earnings :: rat
  total_hours :: rat
  available_hours :: rat
  hours_remaining :: rat
  projects_selected :: nat
  projects_available :: nat
  utilization :: rat

subsection \<open>The interface of the solver\<close>

text \<open>
  \<^verbatim>\<open>LinearConstraint(A, lb, ub)\<close>: the rows of \<open>A\<close>, with \<open>lb \<le> A x \<le> ub\<close>.
  The lower bound \<^verbatim>\<open>-np.inf\<close> is \<open>None\<close>.
\<close>

record linear_constraint =
  con_A :: "rat list list"
  con_lb :: "rat option"
  con_ub :: rat

text \<open>\<^verbatim>\<open>Bounds(lb, ub)\<close> with scalar bounds, which apply to every variable.\<close>

record bounds =
  bounds_lb :: rat
  bounds_ub :: rat

text \<open>The arguments of one call \<^verbatim>\<open>milp(c, constraints=, bounds=, integrality=)\<close>.\<close>

record milp_args =
  arg_c :: "rat list"
  arg_constraints :: linear_constraint
  arg_bounds :: bounds
  arg_integrality :: "nat list"

text \<open>
  The \<^verbatim>\<open>OptimizeResult\<close> fields that the engine reads. \<open>res_x\<close> is \<open>None\<close> where
  the solver has no solution vector.
\<close>

record optimize_result =
  res_success :: bool
  res_x :: "rat list option"
  res_message :: string

text \<open>A call of the solver returns a result or raises; \<open>Raised e\<close> carries \<^verbatim>\<open>str(e)\<close>.\<close>

datatype milp_outcome = Returned optimize_result | Raised string

type_synonym solver = "milp_args \<Rightarrow> milp_outcome"

subsection \<open>The engine\<close>

text \<open>
  Lines 101-102: \<^verbatim>\<open>projects_df[projects_df['skill_match'] >= min_skill_match]\<close>,
  re-indexed from 0.
\<close>

definition eligible_df :: "project list \<Rightarrow> rat \<Rightarrow> project list" where
  "eligible_df projects_df min_skill_match =
     filter (\<lambda>p. skill_match p \<ge> min_skill_match) projects_df"

text \<open>Lines 111-122: the arguments handed to the solver.\<close>

definition milp_problem :: "project list \<Rightarrow> rat \<Rightarrow> milp_args" where
  "milp_problem eligible avail =
     (let n_eligible = length eligible;
          earnings = map total_pay eligible;
          c = map uminus earnings;
          hours = map hours_required eligible;
          A = [hours];
          constraints = \<lparr>con_A = A, con_lb = None, con_ub = avail\<rparr>;
          bnds = \<lparr>bounds_lb = 0, bounds_ub = 1\<rparr>;
          integrality = replicate n_eligible 1
      in \<lparr>arg_c = c, arg_constraints = constraints, arg_bounds = bnds,
          arg_integrality = integrality\<rparr>)"

text \<open>Line 129: \<^verbatim>\<open>np.where(result.x > 0.5)[0]\<close>, the positions in increasing order.\<close>

definition selected_indices :: "rat list \<Rightarrow> nat list" where
  "selected_indices xs = filter (\<lambda>i. xs ! i > 1 / 2) [0..<length xs]"

text \<open>
  Lines 130-145, for a solution vector \<open>xs\<close>. \<^verbatim>\<open>iloc\<close> raises IndexError for a position
  outside the eligible frame; the error is raised inside the \<^verbatim>\<open>try\<close> block and so
  ends in the handler of line 148.

  The sums, the difference and the quotient are those of the rationals. They are the
  values of the code within \<open>exact_range\<close> below; \<open>build_results_int64\<close> has the
  wrap-around of int64 columns.
\<close>

definition build_results ::
    "project list \<Rightarrow> nat \<Rightarrow> rat \<Rightarrow> rat list \<Rightarrow>
     project list option \<times> optimization_results option \<times> string option" where
  "build_results eligible n_projects avail xs =
     (let idx = selected_indices xs in
      if list_ex (\<lambda>i. i \<ge> length eligible) idx
      then (None, None,
            Some (''Error during optimization: '' @ ''positional indexers are out-of-bounds''))
      else
        let selected_projects = map (\<lambda>i. eligible ! i) idx;
            tot_earnings = sum_list (map total_pay selected_projects);
            tot_hours = sum_list (map hours_required selected_projects)
        in (Some selected_projects,
            Some \<lparr>total_earnings = tot_earnings,
                  total_hours = tot_hours,
                  available_hours = avail,
                  hours_remaining = avail - tot_hours,
                  projects_selected = length selected_projects,
                  projects_available = n_projects,
                  utilization = (if avail > 0 then (tot_hours / avail) * 100 else 0)\<rparr>,
            None))"

text \<open>
  The text of the TypeError that \<^verbatim>\<open>None > 0.5\<close> raises; \<open>CHR 0x27\<close> is the
  single quote.
\<close>

definition none_gt_float :: string where
  "none_gt_float =
     [CHR 0x27] @ ''>'' @ [CHR 0x27] @ '' not supported between instances of '' @
     [CHR 0x27] @ ''NoneType'' @ [CHR 0x27] @ '' and '' @ [CHR 0x27] @ ''float'' @ [CHR 0x27]"

text \<open>
  \<^verbatim>\<open>optimize_projects(projects_df, available_hours, min_skill_match)\<close>, lines 83-149,
  with the solver as a parameter. The result is the triple
  \<^verbatim>\<open>(selected_projects, optimization_results, error)\<close>, \<open>None\<close> being Python's None.
  A successful result without a vector makes \<^verbatim>\<open>result.x > 0.5\<close> raise TypeError,
  which the handler of line 148 catches as well.

  The parameter \<^verbatim>\<open>available_hours\<close> is written \<open>avail\<close>, its name being that of a
  field of the results. The default of \<^verbatim>\<open>min_skill_match\<close> is not modelled: the one
  caller passes all three arguments.
\<close>

definition optimize_projects ::
    "solver \<Rightarrow> project list \<Rightarrow> rat \<Rightarrow> rat \<Rightarrow>
     project list option \<times> optimization_results option \<times> string option" where
  "optimize_projects milp projects_df avail min_skill_match =
     (let n_projects = length projects_df in
      if n_projects = 0 then (None, None, Some ''No projects to optimize'')
      else
        let eligible = eligible_df projects_df min_skill_match in
        if length eligible = 0
        then (None, None, Some ''No projects meet the minimum skill match requirement'')
        else
          (case milp (milp_problem eligible avail) of
             Raised e \<Rightarrow> (None, None, Some (''Error during optimization: '' @ e))
           | Returned result \<Rightarrow>
               if res_success result then
                 (case res_x result of
                    None \<Rightarrow>
                      (None, None,
                       Some (''Error during optimization: '' @ none_gt_float))
                  | Some xs \<Rightarrow> build_results eligible n_projects avail xs)
               else (None, None, Some (''Optimization failed: '' @ res_message result))))"

text \<open>\<^verbatim>\<open>create_sample_projects()\<close>, lines 152-171.\<close>

definition create_sample_projects :: "project list" where
  "create_sample_projects =
     [\<lparr>project_name = ''E-commerce Website Redesign'', client = ''TechStart Inc'',
       total_pay = 2500, hours_required = 40, deadline_days = 14, skill_match = 95\<rparr>,
      \<lparr>project_name = ''Mobile App UI/UX Design'', client = ''HealthApp Co'',
       total_pay = 1800, hours_required = 25, deadline_days = 10, skill_match = 80\<rparr>,
      \<lparr>project_name = ''Data Dashboard Development'', client = ''FinanceMetrics'',
       total_pay = 3200, hours_required = 50, deadline_days = 21, skill_match = 90\<rparr>,
      \<lparr>project_name = ''API Integration Project'', client = ''RetailHub'',
       total_pay = 1500, hours_required = 20, deadline_days = 7, skill_match = 75\<rparr>,
      \<lparr>project_name = ''Brand Identity Package'', client = ''GreenLeaf Studio'',
       total_pay = 800, hours_required = 12, deadline_days = 5, skill_match = 60\<rparr>,
      \<lparr>project_name = ''SEO Optimization Campaign'', client = ''LocalBiz Group'',
       total_pay = 1200, hours_required = 18, deadline_days = 14, skill_match = 85\<rparr>,
      \<lparr>project_name = ''Social Media Content Strategy'', client = ''FashionBrand'',
       total_pay = 600, hours_required = 10, deadline_days = 7, skill_match = 70\<rparr>,
      \<lparr>project_name = ''WordPress Plugin Development'', client = ''BloggerPro'',
       total_pay = 2000, hours_required = 30, deadline_days = 14, skill_match = 88\<rparr>]"

subsection \<open>What the solver is relied on for\<close>

text \<open>
  \<^verbatim>\<open>milp\<close> belongs to SciPy, not to this repository. Its documented contract is stated
  here for the problems the engine poses: every variable integral, shapes that agree.
\<close>

definition dot :: "rat list \<Rightarrow> rat list \<Rightarrow> rat" where
  "dot a b = sum_list (map (\<lambda>(u, v). u * v) (zip a b))"

definition milp_wf :: "milp_args \<Rightarrow> bool" where
  "milp_wf P \<longleftrightarrow>
     list_all (\<lambda>r. length r = length (arg_c P)) (con_A (arg_constraints P)) \<and>
     length (arg_integrality P) = length (arg_c P) \<and>
     list_all (\<lambda>k. k = 1) (arg_integrality P)"

text \<open>The rows of the constraint hold at \<open>v\<close>.\<close>

definition con_ok :: "milp_args \<Rightarrow> rat list \<Rightarrow> bool" where
  "con_ok P v \<longleftrightarrow>
     list_all (\<lambda>r. (case con_lb (arg_constraints P) of None \<Rightarrow> True | Some l \<Rightarrow> l \<le> dot r v) \<and>
                   dot r v \<le> con_ub (arg_constraints P))
              (con_A (arg_constraints P))"

text \<open>\<open>v\<close> is a feasible point: right length, integral, within the bounds and the constraint.\<close>

definition milp_feasible :: "milp_args \<Rightarrow> rat list \<Rightarrow> bool" where
  "milp_feasible P v \<longleftrightarrow>
     length v = length (arg_c P) \<and>
     (\<forall>u \<in> set v. u \<in> \<int> \<and> bounds_lb (arg_bounds P) \<le> u \<and> u \<le> bounds_ub (arg_bounds P)) \<and>
     con_ok P v"

text \<open>A solver that reports success returns a feasible point minimising \<open>c \<bullet> x\<close>.\<close>

definition milp_sound :: "solver \<Rightarrow> bool" where
  "milp_sound milp \<longleftrightarrow>
     (\<forall>P r. milp_wf P \<longrightarrow> milp P = Returned r \<longrightarrow> res_success r \<longrightarrow>
        (\<exists>v. res_x r = Some v \<and> milp_feasible P v \<and>
             (\<forall>w. milp_feasible P w \<longrightarrow> dot (arg_c P) v \<le> dot (arg_c P) w)))"

text \<open>A solver reports success on every problem that has a feasible point.\<close>

definition milp_complete :: "solver \<Rightarrow> bool" where
  "milp_complete milp \<longleftrightarrow>
     (\<forall>P. milp_wf P \<longrightarrow> (\<exists>w. milp_feasible P w) \<longrightarrow>
        (\<exists>r. milp P = Returned r \<and> res_success r))"

text \<open>
  A reference solver by enumeration of the integer points of the box, which meets both
  parts of the contract. It serves to run the engine on concrete inputs.
\<close>

definition enum_milp :: solver where
  "enum_milp P =
     (if \<not> milp_wf P then Raised ''unsupported problem''
      else
        let vals = map rat_of_int [\<lceil>bounds_lb (arg_bounds P)\<rceil> .. \<lfloor>bounds_ub (arg_bounds P)\<rfloor>];
            cands = filter (con_ok P) (List.n_lists (length (arg_c P)) vals)
        in if cands = []
           then Returned \<lparr>res_success = False, res_x = None,
                          res_message = ''The problem is infeasible.''\<rparr>
           else Returned \<lparr>res_success = True,
                          res_x = Some (arg_min_list (dot (arg_c P)) cands),
                          res_message = ''Optimization terminated successfully.''\<rparr>)"

subsection \<open>The tolerances of the solver\<close>

text \<open>
  HiGHS, the solver behind \<^verbatim>\<open>milp\<close>, works in floating point. It accepts a point
  whose rows are violated within its feasibility tolerance and whose entries are within
  its integrality tolerance of whole numbers, it may scale the rows before it compares,
  and it stops when the objective is within an absolute or a relative gap of the best
  bound. The contract with these allowances: a row holds up to \<open>eps\<close> times the size of
  the row (1 plus the magnitude of its bound and of its coefficients), and the objective
  is within \<open>eps\<close> times the size of the objective plus \<open>gap\<close> times its own magnitude
  of the objective at every exactly feasible point. With \<open>eps = 0\<close> and \<open>gap = 0\<close> this
  is \<open>milp_sound\<close>.
\<close>

definition magnitude :: "rat list \<Rightarrow> rat" where
  "magnitude xs = sum_list (map abs xs)"

definition con_ok_upto :: "rat \<Rightarrow> milp_args \<Rightarrow> rat list \<Rightarrow> bool" where
  "con_ok_upto eps P v \<longleftrightarrow>
     list_all (\<lambda>r. (case con_lb (arg_constraints P) of None \<Rightarrow> True
                     | Some l \<Rightarrow> l - eps * (1 + \<bar>l\<bar> + magnitude r) \<le> dot r v) \<and>
                   dot r v \<le> con_ub (arg_constraints P) +
                     eps * (1 + \<bar>con_ub (arg_constraints P)\<bar> + magnitude r))
              (con_A (arg_constraints P))"

definition milp_feasible_upto :: "rat \<Rightarrow> milp_args \<Rightarrow> rat list \<Rightarrow> bool" where
  "milp_feasible_upto eps P v \<longleftrightarrow>
     length v = length (arg_c P) \<and>
     (\<forall>u \<in> set v. u \<in> \<int> \<and> bounds_lb (arg_bounds P) \<le> u \<and> u \<le> bounds_ub (arg_bounds P)) \<and>
     con_ok_upto eps P v"

definition milp_sound_upto :: "rat \<Rightarrow> rat \<Rightarrow> solver \<Rightarrow> bool" where
  "milp_sound_upto eps gap milp \<longleftrightarrow>
     (\<forall>P r. milp_wf P \<longrightarrow> milp P = Returned r \<longrightarrow> res_success r \<longrightarrow>
        (\<exists>v. res_x r = Some v \<and> milp_feasible_upto eps P v \<and>
             (\<forall>w. milp_feasible P w \<longrightarrow>
                  dot (arg_c P) v \<le> dot (arg_c P) w +
                    eps * (1 + magnitude (arg_c P)) + gap * \<bar>dot (arg_c P) v\<bar>)))"

text \<open>
  The defaults of HiGHS: one ten-millionth for the rows and one millionth for integrality
  and for the absolute gap, of which the larger is taken for \<open>eps\<close>, and one
  ten-thousandth for the relative gap.
\<close>

definition feasibility_tolerance :: rat where
  "feasibility_tolerance = 1 / 10 ^ 6"

definition mip_rel_gap :: rat where
  "mip_rel_gap = 1 / 10 ^ 4"

text \<open>
  The reference solver with the feasibility tolerance: it enumerates the integer points
  of the box whose rows hold up to the tolerance and returns the first of least objective.
\<close>

definition tolerant_milp :: solver where
  "tolerant_milp P =
     (if \<not> milp_wf P then Raised ''unsupported problem''
      else
        let vals = map rat_of_int [\<lceil>bounds_lb (arg_bounds P)\<rceil> .. \<lfloor>bounds_ub (arg_bounds P)\<rfloor>];
            cands = filter (con_ok_upto feasibility_tolerance P)
                      (List.n_lists (length (arg_c P)) vals)
        in if cands = []
           then Returned \<lparr>res_success = False, res_x = None,
                          res_message = ''The problem is infeasible.''\<rparr>
           else Returned \<lparr>res_success = True,
                          res_x = Some (arg_min_list (dot (arg_c P)) cands),
                          res_message = ''Optimization terminated successfully.''\<rparr>)"

subsection \<open>Where the arithmetic of the columns is exact\<close>

text \<open>
  The columns of the frame are int64 or float64 arrays, while the model computes with
  rationals. The two agree where pay, hours and budget are whole numbers and the sums
  stay within \<open>2 ^ 53\<close>: there no float64 operation of lines 132-139 rounds, no int64
  sum wraps, and the cast of the columns to float64 inside \<^verbatim>\<open>milp\<close> is exact.
\<close>

definition is_whole :: "rat \<Rightarrow> bool" where
  "is_whole q \<longleftrightarrow> rat_of_int \<lfloor>q\<rfloor> = q"

definition exact_range :: "project list \<Rightarrow> rat \<Rightarrow> bool" where
  "exact_range eligible avail \<longleftrightarrow>
     is_whole avail \<and>
     list_all (\<lambda>p. is_whole (total_pay p) \<and> is_whole (hours_required p)) eligible \<and>
     magnitude (map total_pay eligible) \<le> 2 ^ 53 \<and>
     \<bar>avail\<bar> + magnitude (map hours_required eligible) \<le> 2 ^ 53"

text \<open>
  On whole numbers a tolerance cannot change a comparison once it is below 1 on the
  sizes involved: the tolerance on the row of hours, and the tolerance and the gap on
  the objective.
\<close>

definition hours_tolerance_ok :: "rat \<Rightarrow> project list \<Rightarrow> rat \<Rightarrow> bool" where
  "hours_tolerance_ok eps eligible avail \<longleftrightarrow>
     eps * (1 + \<bar>avail\<bar> + magnitude (map hours_required eligible)) < 1"

definition pay_tolerance_ok :: "rat \<Rightarrow> rat \<Rightarrow> project list \<Rightarrow> bool" where
  "pay_tolerance_ok eps gap eligible \<longleftrightarrow>
     0 \<le> gap \<and>
     eps * (1 + magnitude (map total_pay eligible)) +
       gap * magnitude (map total_pay eligible) < 1"

subsection \<open>Frames with int64 columns\<close>

text \<open>
  \<^verbatim>\<open>create_sample_projects\<close> builds the numeric columns from Python ints, so pandas
  gives them the dtype int64. The engine on such a frame, with 64-bit words in the
  cells: the sums of lines 132-133 and the subtraction of line 139 wrap around at
  \<open>2 ^ 63\<close>, the values are read signed (\<open>sint\<close>), and the budget is a Python int within
  the int64 range. The cast to float64 inside \<^verbatim>\<open>milp\<close> (\<open>to_float64\<close>) and the true
  division of line 142 are taken exactly; the cast is exact for magnitudes up to
  \<open>2 ^ 53\<close> and for powers of two.
\<close>

record project_int64 =
  project_name64 :: string
  client64 :: string
  total_pay64 :: "64 word"
  hours_required64 :: "64 word"
  deadline_days64 :: "64 word"
  skill_match64 :: "64 word"

record optimization_results_int64 =
  total_earnings64 :: "64 word"
  total_hours64 :: "64 word"
  available_hours64 :: "64 word"
  hours_remaining64 :: "64 word"
  projects_selected64 :: nat
  projects_available64 :: nat
  utilization64 :: rat

definition eligible_df_int64 :: "project_int64 list \<Rightarrow> int \<Rightarrow> project_int64 list" where
  "eligible_df_int64 projects_df min_skill_match =
     filter (\<lambda>p. sint (skill_match64 p) \<ge> min_skill_match) projects_df"

definition to_float64 :: "64 word \<Rightarrow> rat" where
  "to_float64 w = rat_of_int (sint w)"

definition milp_problem_int64 :: "project_int64 list \<Rightarrow> 64 word \<Rightarrow> milp_args" where
  "milp_problem_int64 eligible avail =
     (let n_eligible = length eligible;
          earnings = map total_pay64 eligible;
          c = map uminus earnings;
          hours = map hours_required64 eligible;
          A = [hours];
          constraints = \<lparr>con_A = map (map to_float64) A, con_lb = None, con_ub = to_float64 avail\<rparr>;
          bnds = \<lparr>bounds_lb = 0, bounds_ub = 1\<rparr>;
          integrality = replicate n_eligible 1
      in \<lparr>arg_c = map to_float64 c, arg_constraints = constraints, arg_bounds = bnds,
          arg_integrality = integrality\<rparr>)"

definition build_results_int64 ::
    "project_int64 list \<Rightarrow> nat \<Rightarrow> 64 word \<Rightarrow> rat list \<Rightarrow>
     project_int64 list option \<times> optimization_results_int64 option \<times> string option" where
  "build_results_int64 eligible n_projects avail xs =
     (let idx = selected_indices xs in
      if list_ex (\<lambda>i. i \<ge> length eligible) idx
      then (None, None,
            Some (''Error during optimization: '' @ ''positional indexers are out-of-bounds''))
      else
        let selected_projects = map (\<lambda>i. eligible ! i) idx;
            tot_earnings = sum_list (map total_pay64 selected_projects);
            tot_hours = sum_list (map hours_required64 selected_projects)
        in (Some selected_projects,
            Some \<lparr>total_earnings64 = tot_earnings,
                  total_hours64 = tot_hours,
                  available_hours64 = avail,
                  hours_remaining64 = avail - tot_hours,
                  projects_selected64 = length selected_projects,
                  projects_available64 = n_projects,
                  utilization64 = (if sint avail > 0
                     then (to_float64 tot_hours / to_float64 avail) * 100 else 0)\<rparr>,
            None))"

definition optimize_projects_int64 ::
    "solver \<Rightarrow> project_int64 list \<Rightarrow> 64 word \<Rightarrow> int \<Rightarrow>
     project_int64 list option \<times> optimization_results_int64 option \<times> string option" where
  "optimize_projects_int64 milp projects_df avail min_skill_match =
     (let n_projects = length projects_df in
      if n_projects = 0 then (None, None, Some ''No projects to optimize'')
      else
        let eligible = eligible_df_int64 projects_df min_skill_match in
        if length eligible = 0
        then (None, None, Some ''No projects meet the minimum skill match requirement'')
        else
          (case milp (milp_problem_int64 eligible avail) of
             Raised e \<Rightarrow> (None, None, Some (''Error during optimization: '' @ e))
           | Returned result \<Rightarrow>
               if res_success result then
                 (case res_x result of
                    None \<Rightarrow>
                      (None, None,
                       Some (''Error during optimization: '' @ none_gt_float))
                  | Some xs \<Rightarrow> build_results_int64 eligible n_projects avail xs)
               else (None, None, Some (''Optimization failed: '' @ res_message result))))"

text \<open>
  An int64 frame read as a frame of the rational model, the outcome on it likewise, and
  the range in which no sum or difference of the int64 engine wraps.
\<close>

definition of_int64_project :: "project_int64 \<Rightarrow> project" where
  "of_int64_project p =
     \<lparr>project_name = project_name64 p, client = client64 p,
      total_pay = to_float64 (total_pay64 p),
      hours_required = to_float64 (hours_required64 p),
      deadline_days = to_float64 (deadline_days64 p),
      skill_match = to_float64 (skill_match64 p)\<rparr>"

definition of_int64_results :: "optimization_results_int64 \<Rightarrow> optimization_results" where
  "of_int64_results r =
     \<lparr>total_earnings = to_float64 (total_earnings64 r),
      total_hours = to_float64 (total_hours64 r),
      available_hours = to_float64 (available_hours64 r),
      hours_remaining = to_float64 (hours_remaining64 r),
      projects_selected = projects_selected64 r,
      projects_available = projects_available64 r,
      utilization = utilization64 r\<rparr>"

definition of_int64_outcome ::
    "project_int64 list option \<times> optimization_results_int64 option \<times> string option \<Rightarrow>
     project list option \<times> optimization_results option \<times> string option" where
  "of_int64_outcome out =
     (map_option (map of_int64_project) (fst out),
      map_option of_int64_results (fst (snd out)),
      snd (snd out))"

definition int64_range :: "project_int64 list \<Rightarrow> 64 word \<Rightarrow> bool" where
  "int64_range eligible avail \<longleftrightarrow>
     sum_list (map (\<lambda>p. \<bar>sint (total_pay64 p)\<bar>) eligible) < 2 ^ 63 \<and>
     \<bar>sint avail\<bar> + sum_list (map (\<lambda>p. \<bar>sint (hours_required64 p)\<bar>) eligible) < 2 ^ 63"

subsection \<open>Selections as 0/1 vectors\<close>

text \<open>
  The items of \<open>es\<close> that a vector marks (entries above one half), in the order of \<open>es\<close>.
  For a vector as long as \<open>es\<close> this is what lines 129-130 select.
\<close>

fun pick :: "'a list \<Rightarrow> rat list \<Rightarrow> 'a list" where
  "pick (e # es) (u # v) = (if u > 1 / 2 then e # pick es v else pick es v)"
| "pick es v = []"

subsection \<open>Concrete inputs\<close>

text \<open>Scenario A: the first four sample projects.\<close>

definition scenario_a :: "project list" where
  "scenario_a = take 4 create_sample_projects"

text \<open>Two projects of equal pay; the second needs fewer hours.\<close>

definition tie_projects :: "project list" where
  "tie_projects =
     [\<lparr>project_name = ''Logo'', client = ''Acme'',
       total_pay = 10, hours_required = 5, deadline_days = 1, skill_match = 50\<rparr>,
      \<lparr>project_name = ''Banner'', client = ''Acme'',
       total_pay = 10, hours_required = 3, deadline_days = 1, skill_match = 50\<rparr>]"

text \<open>Two projects outside the documented ranges: negative pay and negative hours.\<close>

definition invalid_projects :: "project list" where
  "invalid_projects =
     [\<lparr>project_name = ''Refund'', client = ''Acme'',
       total_pay = - 20, hours_required = - 5, deadline_days = 1, skill_match = 50\<rparr>,
      \<lparr>project_name = ''Audit'', client = ''Acme'',
       total_pay = 100, hours_required = 12, deadline_days = 1, skill_match = 50\<rparr>]"

text \<open>
  One project that needs a hundred-millionth of an hour more than a budget of 10. The
  decimal 10.00000001 is taken as the rational it denotes; the float nearest to it gives
  the same selection and the same signs.
\<close>

definition near_budget :: "project list" where
  "near_budget =
     [\<lparr>project_name = ''Survey'', client = ''Acme'',
       total_pay = 500, hours_required = 1000000001 / 100000000, deadline_days = 7,
       skill_match = 80\<rparr>]"


section \<open>Auxiliary facts\<close>

subsection \<open>Reading the selection off the vector\<close>

lemma selected_indices_Cons:
  "selected_indices (u # v) =
     (if u > 1 / 2 then [0] else []) @ map Suc (selected_indices v)"
proof -
  have "[0..<length (u # v)] = 0 # map Suc [0..<length v]"
    by (simp add: upt_conv_Cons map_Suc_upt del: upt_Suc)
  then show ?thesis
    by (simp add: selected_indices_def filter_map o_def)
qed

lemma selected_indices_bound: "i \<in> set (selected_indices v) \<Longrightarrow> i < length v"
  by (simp add: selected_indices_def)

lemma map_nth_selected_indices:
  "length v = length es \<Longrightarrow> map (\<lambda>i. es ! i) (selected_indices v) = pick es v"
proof (induction es arbitrary: v)
  case Nil
  then show ?case by (simp add: selected_indices_def)
next
  case (Cons e es)
  then obtain u v' where v: "v = u # v'" and len: "length v' = length es"
    by (cases v) auto
  from Cons.IH [OF len] show ?case
    by (simp add: v selected_indices_Cons o_def)
qed

lemma dot_Nil [simp]: "dot [] v = 0" "dot a [] = 0"
  by (simp_all add: dot_def)

lemma dot_Cons [simp]: "dot (a # as) (u # v) = a * u + dot as v"
  by (simp add: dot_def)

lemma dot_map_uminus: "dot (map uminus a) v = - dot a v"
proof (induction a arbitrary: v)
  case Nil
  then show ?case by simp
next
  case (Cons a as)
  then show ?case by (cases v) simp_all
qed

lemma dot_pick:
  "length v = length es \<Longrightarrow> set v \<subseteq> {0, 1} \<Longrightarrow>
   dot (map f es) v = sum_list (map f (pick es v))"
proof (induction es arbitrary: v)
  case Nil
  then show ?case by simp
next
  case (Cons e es)
  then obtain u v' where v: "v = u # v'" and len: "length v' = length es"
    by (cases v) auto
  from Cons.prems v have u: "u = 0 \<or> u = 1" and sub: "set v' \<subseteq> {0, 1}"
    by auto
  from Cons.IH [OF len sub] u show ?case
    by (auto simp: v)
qed

lemma pick_in_subseqs: "pick es v \<in> set (subseqs es)"
  by (induction es v rule: pick.induct) (auto simp: Let_def)

lemma subseqs_as_pick:
  "S \<in> set (subseqs es) \<Longrightarrow> \<exists>w. length w = length es \<and> set w \<subseteq> {0, 1} \<and> pick es w = S"
proof (induction es arbitrary: S)
  case Nil
  then show ?case by simp
next
  case (Cons e es)
  from Cons.prems consider S' where "S = e # S'" "S' \<in> set (subseqs es)"
    | "S \<in> set (subseqs es)"
    by (auto simp: Let_def)
  then show ?case
  proof cases
    case 1
    from Cons.IH [OF 1(2)] obtain w where
      "length w = length es" "set w \<subseteq> {0, 1}" "pick es w = S'" by blast
    then have "length (1 # w) = length (e # es) \<and> set (1 # w) \<subseteq> {0, 1} \<and> pick (e # es) (1 # w) = S"
      using 1(1) by simp
    then show ?thesis by blast
  next
    case 2
    from Cons.IH [OF 2] obtain w where
      "length w = length es" "set w \<subseteq> {0, 1}" "pick es w = S" by blast
    then have "length (0 # w) = length (e # es) \<and> set (0 # w) \<subseteq> {0, 1} \<and> pick (e # es) (0 # w) = S"
      by simp
    then show ?thesis by blast
  qed
qed

lemma milp_wf_problem: "milp_wf (milp_problem es h)"
  by (simp add: milp_wf_def milp_problem_def list_all_iff)

lemma int_unit_interval: "u \<in> \<int> \<Longrightarrow> 0 \<le> u \<Longrightarrow> u \<le> 1 \<Longrightarrow> u = 0 \<or> u = (1::rat)"
proof -
  assume "u \<in> \<int>" "0 \<le> u" "u \<le> 1"
  then obtain k :: int where k: "u = of_int k" by (auto elim: Ints_cases)
  with \<open>0 \<le> u\<close> \<open>u \<le> 1\<close> have "0 \<le> k" "k \<le> 1" by simp_all
  then have "k = 0 \<or> k = 1" by arith
  with k show ?thesis by auto
qed

lemma milp_feasible_problem:
  "milp_feasible (milp_problem es h) v \<longleftrightarrow>
     length v = length es \<and> set v \<subseteq> {0, 1} \<and> dot (map hours_required es) v \<le> h"
  by (auto simp: milp_feasible_def milp_problem_def con_ok_def dest: int_unit_interval)


lemma build_results_pick:
  "length v = length es \<Longrightarrow>
   build_results es n h v =
     (Some (pick es v),
      Some \<lparr>total_earnings = sum_list (map total_pay (pick es v)),
            total_hours = sum_list (map hours_required (pick es v)),
            available_hours = h,
            hours_remaining = h - sum_list (map hours_required (pick es v)),
            projects_selected = length (pick es v),
            projects_available = n,
            utilization = (if h > 0 then (sum_list (map hours_required (pick es v)) / h) * 100 else 0)\<rparr>,
      None)"
proof -
  assume len: "length v = length es"
  then have "\<not> list_ex (\<lambda>i. i \<ge> length es) (selected_indices v)"
    by (auto simp: list_ex_iff dest: selected_indices_bound)
  then show ?thesis
    by (simp add: build_results_def Let_def map_nth_selected_indices [OF len])
qed

lemma build_results_success:
  assumes "build_results es n h v = (Some sel, Some res, None)"
  shows "sel = map (\<lambda>i. es ! i) (selected_indices v)"
    and "res = \<lparr>total_earnings = sum_list (map total_pay sel),
            total_hours = sum_list (map hours_required sel),
            available_hours = h,
            hours_remaining = h - sum_list (map hours_required sel),
            projects_selected = length sel,
            projects_available = n,
            utilization = (if h > 0 then (sum_list (map hours_required sel) / h) * 100 else 0)\<rparr>"
  using assms by (auto simp: build_results_def Let_def split: if_splits)

lemma optimize_projects_success:
  assumes "optimize_projects milp ps h t = (Some sel, Some res, None)"
  obtains r v where "ps \<noteq> []" "eligible_df ps t \<noteq> []"
    "milp (milp_problem (eligible_df ps t) h) = Returned r" "res_success r" "res_x r = Some v"
    "build_results (eligible_df ps t) (length ps) h v = (Some sel, Some res, None)"
  using assms
  by (auto simp: optimize_projects_def Let_def split: if_splits milp_outcome.splits option.splits)

lemma optimize_projects_sound:
  assumes snd: "milp_sound milp"
    and ok: "optimize_projects milp ps h t = (Some sel, Some res, None)"
  shows "\<exists>v. length v = length (eligible_df ps t) \<and> set v \<subseteq> {0, 1} \<and>
    dot (map hours_required (eligible_df ps t)) v \<le> h \<and>
    (\<forall>w. length w = length (eligible_df ps t) \<and> set w \<subseteq> {0, 1} \<and>
         dot (map hours_required (eligible_df ps t)) w \<le> h \<longrightarrow>
         dot (map total_pay (eligible_df ps t)) w \<le> dot (map total_pay (eligible_df ps t)) v) \<and>
    build_results (eligible_df ps t) (length ps) h v = (Some sel, Some res, None)"
proof -
  let ?es = "eligible_df ps t"
  let ?P = "milp_problem ?es h"
  from ok obtain r v where r: "milp ?P = Returned r" "res_success r" "res_x r = Some v"
    and br: "build_results ?es (length ps) h v = (Some sel, Some res, None)"
    by (rule optimize_projects_success)
  from snd r milp_wf_problem [of ?es h]
  have feas: "milp_feasible ?P v"
    and opt: "\<And>w. milp_feasible ?P w \<Longrightarrow> dot (arg_c ?P) v \<le> dot (arg_c ?P) w"
    unfolding milp_sound_def by fastforce+
  have c: "arg_c ?P = map uminus (map total_pay ?es)"
    by (simp add: milp_problem_def)
  have "dot (map total_pay ?es) w \<le> dot (map total_pay ?es) v"
    if "length w = length ?es \<and> set w \<subseteq> {0, 1} \<and> dot (map hours_required ?es) w \<le> h" for w
  proof -
    from that have "milp_feasible ?P w" by (simp add: milp_feasible_problem)
    from opt [OF this] have "dot (map uminus (map total_pay ?es)) v \<le> dot (map uminus (map total_pay ?es)) w"
      unfolding c .
    then show ?thesis by (simp only: dot_map_uminus neg_le_iff_le)
  qed
  with feas br show ?thesis
    by (auto simp: milp_feasible_problem)
qed

text \<open>What a sound solver's success means for the selection.\<close>

lemma optimize_projects_optimal:
  assumes snd: "milp_sound milp"
    and ok: "optimize_projects milp ps h t = (Some sel, Some res, None)"
  shows "sel \<in> set (subseqs (eligible_df ps t))"
    and "sum_list (map hours_required sel) \<le> h"
    and "\<And>S. S \<in> set (subseqs (eligible_df ps t)) \<Longrightarrow> sum_list (map hours_required S) \<le> h \<Longrightarrow>
           sum_list (map total_pay S) \<le> sum_list (map total_pay sel)"
    and "res = \<lparr>total_earnings = sum_list (map total_pay sel),
            total_hours = sum_list (map hours_required sel),
            available_hours = h,
            hours_remaining = h - sum_list (map hours_required sel),
            projects_selected = length sel,
            projects_available = length ps,
            utilization = (if h > 0 then (sum_list (map hours_required sel) / h) * 100 else 0)\<rparr>"
proof -
  let ?es = "eligible_df ps t"
  from optimize_projects_sound [OF snd ok]
  obtain v where len: "length v = length ?es" and bin: "set v \<subseteq> {0, 1}"
    and hrs: "dot (map hours_required ?es) v \<le> h"
    and opt: "\<forall>w. length w = length ?es \<and> set w \<subseteq> {0, 1} \<and>
         dot (map hours_required ?es) w \<le> h \<longrightarrow>
         dot (map total_pay ?es) w \<le> dot (map total_pay ?es) v"
    and br: "build_results ?es (length ps) h v = (Some sel, Some res, None)"
    by blast
  from br have sel: "sel = pick ?es v"
    by (simp add: build_results_pick [OF len])
  from br show "res = \<lparr>total_earnings = sum_list (map total_pay sel),
            total_hours = sum_list (map hours_required sel),
            available_hours = h,
            hours_remaining = h - sum_list (map hours_required sel),
            projects_selected = length sel,
            projects_available = length ps,
            utilization = (if h > 0 then (sum_list (map hours_required sel) / h) * 100 else 0)\<rparr>"
    unfolding build_results_pick [OF len] sel by blast
  show "sel \<in> set (subseqs ?es)"
    unfolding sel by (rule pick_in_subseqs)
  from hrs show "sum_list (map hours_required sel) \<le> h"
    by (simp add: sel dot_pick [OF len bin])
  show "sum_list (map total_pay S) \<le> sum_list (map total_pay sel)"
    if S: "S \<in> set (subseqs ?es)" and Sh: "sum_list (map hours_required S) \<le> h" for S
  proof -
    from subseqs_as_pick [OF S] obtain w where w: "length w = length ?es" "set w \<subseteq> {0, 1}"
      "pick ?es w = S" by blast
    from Sh w have "dot (map hours_required ?es) w \<le> h"
      by (simp add: dot_pick)
    with opt w(1,2) have "dot (map total_pay ?es) w \<le> dot (map total_pay ?es) v"
      by blast
    then show ?thesis
      by (simp add: sel dot_pick [OF len bin] dot_pick [OF w(1,2)] w(3))
  qed
qed


lemma set_int_interval:
  "set (map rat_of_int [\<lceil>l\<rceil> .. \<lfloor>u\<rfloor>]) = {q. q \<in> \<int> \<and> l \<le> q \<and> q \<le> u}"
proof (rule set_eqI)
  fix q :: rat
  show "q \<in> set (map rat_of_int [\<lceil>l\<rceil> .. \<lfloor>u\<rfloor>]) \<longleftrightarrow> q \<in> {q. q \<in> \<int> \<and> l \<le> q \<and> q \<le> u}"
  proof
    assume "q \<in> set (map rat_of_int [\<lceil>l\<rceil> .. \<lfloor>u\<rfloor>])"
    then obtain k where "q = of_int k" "\<lceil>l\<rceil> \<le> k" "k \<le> \<lfloor>u\<rfloor>" by auto
    then show "q \<in> {q. q \<in> \<int> \<and> l \<le> q \<and> q \<le> u}"
      by (simp add: ceiling_le_iff le_floor_iff)
  next
    assume "q \<in> {q. q \<in> \<int> \<and> l \<le> q \<and> q \<le> u}"
    then obtain k where k: "q = of_int k" and "l \<le> q" "q \<le> u" by (auto elim: Ints_cases)
    then have "\<lceil>l\<rceil> \<le> k" "k \<le> \<lfloor>u\<rfloor>" by (simp_all add: ceiling_le_iff le_floor_iff)
    with k show "q \<in> set (map rat_of_int [\<lceil>l\<rceil> .. \<lfloor>u\<rfloor>])" by simp
  qed
qed

lemma enum_cands:
  "set (filter (con_ok P)
          (List.n_lists (length (arg_c P))
             (map rat_of_int [\<lceil>bounds_lb (arg_bounds P)\<rceil> .. \<lfloor>bounds_ub (arg_bounds P)\<rfloor>]))) =
   {v. milp_feasible P v}"
  unfolding set_filter set_n_lists set_int_interval milp_feasible_def by auto

lemma enum_milp_sound: "milp_sound enum_milp"
  unfolding milp_sound_def
proof (intro allI impI)
  fix P r
  assume wf: "milp_wf P" and ret: "enum_milp P = Returned r" and suc: "res_success r"
  define cands where "cands = filter (con_ok P)
          (List.n_lists (length (arg_c P))
             (map rat_of_int [\<lceil>bounds_lb (arg_bounds P)\<rceil> .. \<lfloor>bounds_ub (arg_bounds P)\<rfloor>]))"
  have set_cands: "set cands = {v. milp_feasible P v}"
    unfolding cands_def by (rule enum_cands)
  from wf ret suc have ne: "cands \<noteq> []"
    and x: "res_x r = Some (arg_min_list (dot (arg_c P)) cands)"
    by (auto simp: enum_milp_def Let_def cands_def split: if_splits)
  let ?v = "arg_min_list (dot (arg_c P)) cands"
  from arg_min_list_in [OF ne] set_cands have feas: "milp_feasible P ?v" by blast
  have "dot (arg_c P) ?v \<le> dot (arg_c P) w" if "milp_feasible P w" for w
  proof -
    from that set_cands have "dot (arg_c P) w \<in> dot (arg_c P) ` set cands" by blast
    then have "Min (dot (arg_c P) ` set cands) \<le> dot (arg_c P) w" by simp
    then show ?thesis by (simp add: f_arg_min_list_f [OF ne])
  qed
  with x feas
  show "\<exists>v. res_x r = Some v \<and> milp_feasible P v \<and>
            (\<forall>w. milp_feasible P w \<longrightarrow> dot (arg_c P) v \<le> dot (arg_c P) w)"
    by blast
qed

lemma enum_milp_complete: "milp_complete enum_milp"
  unfolding milp_complete_def
proof (intro allI impI)
  fix P
  assume wf: "milp_wf P" and ex: "\<exists>w. milp_feasible P w"
  then obtain w where "w \<in> {v. milp_feasible P v}" by blast
  then have "set (filter (con_ok P)
          (List.n_lists (length (arg_c P))
             (map rat_of_int [\<lceil>bounds_lb (arg_bounds P)\<rceil> .. \<lfloor>bounds_ub (arg_bounds P)\<rfloor>]))) \<noteq> {}"
    unfolding enum_cands by blast
  then have "filter (con_ok P)
          (List.n_lists (length (arg_c P))
             (map rat_of_int [\<lceil>bounds_lb (arg_bounds P)\<rceil> .. \<lfloor>bounds_ub (arg_bounds P)\<rfloor>])) \<noteq> []"
    by (simp only: set_empty not_False_eq_True)
  with wf show "\<exists>r. enum_milp P = Returned r \<and> res_success r"
    by (simp add: enum_milp_def Let_def)
qed

lemma dot_replicate_zero: "dot a (replicate n 0) = 0"
proof (induction a arbitrary: n)
  case Nil
  then show ?case by simp
next
  case (Cons a as)
  then show ?case by (cases n) simp_all
qed

text \<open>
  A sound and complete solver makes the engine succeed whenever some 0/1 vector fits the
  budget, in particular whenever the budget is not negative.
\<close>

lemma optimize_projects_succeeds_if_feasible:
  assumes snd: "milp_sound milp" and cmp: "milp_complete milp"
    and ne: "eligible_df ps t \<noteq> []"
    and feas: "\<exists>w. length w = length (eligible_df ps t) \<and> set w \<subseteq> {0, 1} \<and>
        dot (map hours_required (eligible_df ps t)) w \<le> h"
  shows "\<exists>sel res. optimize_projects milp ps h t = (Some sel, Some res, None)"
proof -
  let ?es = "eligible_df ps t"
  let ?P = "milp_problem ?es h"
  from ne have ps: "ps \<noteq> []" by (auto simp: eligible_df_def)
  from feas have "\<exists>w. milp_feasible ?P w"
    by (simp add: milp_feasible_problem)
  with cmp milp_wf_problem [of ?es h] obtain r where r: "milp ?P = Returned r" "res_success r"
    unfolding milp_complete_def by blast
  with snd milp_wf_problem [of ?es h] obtain v where v: "res_x r = Some v" "milp_feasible ?P v"
    unfolding milp_sound_def by blast
  then have len: "length v = length ?es" by (simp add: milp_feasible_problem)
  show ?thesis
    using ps ne r v(1) build_results_pick [OF len, of "length ps" h]
    by (simp add: optimize_projects_def Let_def)
qed

lemma optimize_projects_succeeds:
  assumes snd: "milp_sound milp" and cmp: "milp_complete milp"
    and ne: "eligible_df ps t \<noteq> []" and h: "0 \<le> h"
  shows "\<exists>sel res. optimize_projects milp ps h t = (Some sel, Some res, None)"
proof -
  let ?w = "replicate (length (eligible_df ps t)) (0 :: rat)"
  from h have "length ?w = length (eligible_df ps t) \<and> set ?w \<subseteq> {0, 1} \<and>
      dot (map hours_required (eligible_df ps t)) ?w \<le> h"
    by (auto simp: dot_replicate_zero)
  then have "\<exists>w. length w = length (eligible_df ps t) \<and> set w \<subseteq> {0, 1} \<and>
      dot (map hours_required (eligible_df ps t)) w \<le> h" ..
  with snd cmp ne show ?thesis by (rule optimize_projects_succeeds_if_feasible)
qed

subsection \<open>The solver's tolerances on whole numbers\<close>

lemma is_whole_Ints: "is_whole q \<longleftrightarrow> q \<in> \<int>"
  unfolding is_whole_def by (metis Ints_of_int floor_of_int Ints_cases)

lemma magnitude_nonneg: "0 \<le> magnitude xs"
  unfolding magnitude_def by (rule sum_list_nonneg) auto


lemma milp_feasible_upto_mono:
  assumes "milp_feasible P w" "0 \<le> eps"
  shows "milp_feasible_upto eps P w"
proof -
  have nn: "0 \<le> eps * (1 + \<bar>b\<bar> + magnitude r)" for b r
    using assms(2) magnitude_nonneg [of r] by simp
  have "l - eps * (1 + \<bar>l\<bar> + magnitude r) \<le> x" if "l \<le> x" for l x :: rat and r
    using that nn [of l r] by linarith
  moreover have "x \<le> u + eps * (1 + \<bar>u\<bar> + magnitude r)" if "x \<le> u" for u x :: rat and r
    using that nn [of u r] by linarith
  ultimately show ?thesis
    using assms(1)
    by (auto simp: milp_feasible_def milp_feasible_upto_def con_ok_def con_ok_upto_def
        list_all_iff split: option.splits)
qed

lemma milp_sound_upto_exact:
  assumes "milp_sound milp" "0 \<le> eps" "0 \<le> gap"
  shows "milp_sound_upto eps gap milp"
  unfolding milp_sound_upto_def
proof (intro allI impI)
  fix P r
  assume "milp_wf P" "milp P = Returned r" "res_success r"
  with assms(1) obtain v where v: "res_x r = Some v" "milp_feasible P v"
    and opt: "\<And>w. milp_feasible P w \<Longrightarrow> dot (arg_c P) v \<le> dot (arg_c P) w"
    unfolding milp_sound_def by blast
  have "dot (arg_c P) v \<le> dot (arg_c P) w +
      eps * (1 + magnitude (arg_c P)) + gap * \<bar>dot (arg_c P) v\<bar>"
    if "milp_feasible P w" for w
  proof -
    have "0 \<le> gap * \<bar>dot (arg_c P) v\<bar>" using assms(3) by simp
    moreover have "0 \<le> eps * (1 + magnitude (arg_c P))"
      using assms(2) magnitude_nonneg [of "arg_c P"] by simp
    ultimately show ?thesis using opt [OF that] by linarith
  qed
  with v milp_feasible_upto_mono [OF v(2) assms(2)]
  show "\<exists>v. res_x r = Some v \<and> milp_feasible_upto eps P v \<and>
            (\<forall>w. milp_feasible P w \<longrightarrow>
                 dot (arg_c P) v \<le> dot (arg_c P) w +
                   eps * (1 + magnitude (arg_c P)) + gap * \<bar>dot (arg_c P) v\<bar>)"
    by blast
qed

lemma tolerant_cands:
  "set (filter (con_ok_upto eps P)
          (List.n_lists (length (arg_c P))
             (map rat_of_int [\<lceil>bounds_lb (arg_bounds P)\<rceil> .. \<lfloor>bounds_ub (arg_bounds P)\<rfloor>]))) =
   {v. milp_feasible_upto eps P v}"
  unfolding set_filter set_n_lists set_int_interval milp_feasible_upto_def by auto

lemma feasibility_tolerance_range: "0 \<le> feasibility_tolerance"
  by (simp add: feasibility_tolerance_def)

lemma tolerant_milp_sound:
  assumes gap: "0 \<le> gap"
  shows "milp_sound_upto feasibility_tolerance gap tolerant_milp"
  unfolding milp_sound_upto_def
proof (intro allI impI)
  fix P r
  assume wf: "milp_wf P" and ret: "tolerant_milp P = Returned r" and suc: "res_success r"
  define cands where "cands = filter (con_ok_upto feasibility_tolerance P)
          (List.n_lists (length (arg_c P))
             (map rat_of_int [\<lceil>bounds_lb (arg_bounds P)\<rceil> .. \<lfloor>bounds_ub (arg_bounds P)\<rfloor>]))"
  have set_cands: "set cands = {v. milp_feasible_upto feasibility_tolerance P v}"
    unfolding cands_def by (rule tolerant_cands)
  from wf ret suc have ne: "cands \<noteq> []"
    and x: "res_x r = Some (arg_min_list (dot (arg_c P)) cands)"
    by (auto simp: tolerant_milp_def Let_def cands_def split: if_splits)
  let ?v = "arg_min_list (dot (arg_c P)) cands"
  from arg_min_list_in [OF ne] set_cands
  have feas: "milp_feasible_upto feasibility_tolerance P ?v" by blast
  have "dot (arg_c P) ?v \<le> dot (arg_c P) w +
      feasibility_tolerance * (1 + magnitude (arg_c P)) + gap * \<bar>dot (arg_c P) ?v\<bar>"
    if "milp_feasible P w" for w
  proof -
    from that have "milp_feasible_upto feasibility_tolerance P w"
      by (rule milp_feasible_upto_mono) (rule feasibility_tolerance_range)
    with set_cands have "dot (arg_c P) w \<in> dot (arg_c P) ` set cands" by blast
    then have "Min (dot (arg_c P) ` set cands) \<le> dot (arg_c P) w" by simp
    then have "dot (arg_c P) ?v \<le> dot (arg_c P) w" by (simp add: f_arg_min_list_f [OF ne])
    moreover have "0 \<le> gap * \<bar>dot (arg_c P) ?v\<bar>" using gap by simp
    moreover have "0 \<le> feasibility_tolerance * (1 + magnitude (arg_c P))"
      using feasibility_tolerance_range magnitude_nonneg [of "arg_c P"] by simp
    ultimately show ?thesis by linarith
  qed
  with x feas
  show "\<exists>v. res_x r = Some v \<and> milp_feasible_upto feasibility_tolerance P v \<and>
            (\<forall>w. milp_feasible P w \<longrightarrow>
                 dot (arg_c P) v \<le> dot (arg_c P) w +
                   feasibility_tolerance * (1 + magnitude (arg_c P)) +
                   gap * \<bar>dot (arg_c P) v\<bar>)"
    by blast
qed


lemma milp_feasible_upto_problem:
  "milp_feasible_upto eps (milp_problem es h) v \<longleftrightarrow>
     length v = length es \<and> set v \<subseteq> {0, 1} \<and>
     dot (map hours_required es) v \<le>
       h + eps * (1 + \<bar>h\<bar> + magnitude (map hours_required es))"
  by (auto simp: milp_feasible_upto_def milp_problem_def con_ok_upto_def dest: int_unit_interval)

lemma sum_list_Ints: "(\<And>x. x \<in> set xs \<Longrightarrow> x \<in> \<int>) \<Longrightarrow> sum_list xs \<in> (\<int> :: rat set)"
  by (induction xs) auto

lemma whole_le_upto:
  fixes a h eps :: rat
  assumes "a \<in> \<int>" "h \<in> \<int>" "eps < 1" "a \<le> h + eps"
  shows "a \<le> h"
proof -
  from assms(1) obtain i where a: "a = of_int i" by (rule Ints_cases)
  from assms(2) obtain j where h: "h = of_int j" by (rule Ints_cases)
  from assms(3,4) have "a < h + 1" by simp
  then have "i < j + 1" unfolding a h by (metis of_int_1 of_int_add of_int_less_iff)
  then show ?thesis by (simp add: a h)
qed

lemma dot_whole:
  assumes "\<And>p. p \<in> set es \<Longrightarrow> f p \<in> \<int>" "length v = length es" "set v \<subseteq> {0, 1}"
  shows "dot (map f es) v \<in> \<int>"
proof -
  have "set (pick es v) \<subseteq> set es"
    using pick_in_subseqs [of es v] by (auto dest: list_emb_set)
  with assms(1) have "sum_list (map f (pick es v)) \<in> \<int>"
    by (intro sum_list_Ints) auto
  then show ?thesis
    by (simp add: dot_pick [OF assms(2,3)])
qed


lemma exact_range_hours:
  assumes "exact_range es h" "hours_tolerance_ok eps es h"
    and "length v = length es" "set v \<subseteq> {0, 1}"
    and "dot (map hours_required es) v \<le>
      h + eps * (1 + \<bar>h\<bar> + magnitude (map hours_required es))"
  shows "dot (map hours_required es) v \<le> h"
proof -
  from assms(1) have h: "h \<in> \<int>" and es: "\<And>p. p \<in> set es \<Longrightarrow> hours_required p \<in> \<int>"
    by (auto simp: exact_range_def is_whole_Ints list_all_iff)
  from dot_whole [OF es assms(3,4)] have whole: "dot (map hours_required es) v \<in> \<int>" .
  from assms(2) have "eps * (1 + \<bar>h\<bar> + magnitude (map hours_required es)) < 1"
    by (simp add: hours_tolerance_ok_def)
  from whole_le_upto [OF whole h this assms(5)] show ?thesis .
qed


lemma optimize_projects_feasible_upto:
  assumes snd: "milp_sound_upto eps gap milp"
    and tol: "hours_tolerance_ok eps (eligible_df ps t) h"
    and rng: "exact_range (eligible_df ps t) h"
    and ok: "optimize_projects milp ps h t = (Some sel, Some res, None)"
  shows "\<exists>v. length v = length (eligible_df ps t) \<and> set v \<subseteq> {0, 1} \<and>
    dot (map hours_required (eligible_df ps t)) v \<le> h \<and>
    build_results (eligible_df ps t) (length ps) h v = (Some sel, Some res, None)"
proof -
  let ?es = "eligible_df ps t"
  let ?P = "milp_problem ?es h"
  from ok obtain r v where r: "milp ?P = Returned r" "res_success r" "res_x r = Some v"
    and br: "build_results ?es (length ps) h v = (Some sel, Some res, None)"
    by (rule optimize_projects_success)
  from snd r milp_wf_problem [of ?es h]
  have feas: "milp_feasible_upto eps ?P v"
    unfolding milp_sound_upto_def by fastforce
  then have len: "length v = length ?es" and bin: "set v \<subseteq> {0, 1}"
    and up: "dot (map hours_required ?es) v \<le>
      h + eps * (1 + \<bar>h\<bar> + magnitude (map hours_required ?es))"
    by (simp_all add: milp_feasible_upto_problem)
  from exact_range_hours [OF rng tol len bin up] len bin br show ?thesis by blast
qed




subsection \<open>An int64 frame within its range behaves as the rational model\<close>

lemma sint_add_exact:
  fixes a b :: "64 word"
  assumes "- (2 ^ 63) \<le> sint a + sint b" "sint a + sint b < 2 ^ 63"
  shows "sint (a + b) = sint a + sint b"
  using assms
  by (simp add: sint_word_ariths signed_take_bit_int_eq_self)

lemma sint_diff_exact:
  fixes a b :: "64 word"
  assumes "- (2 ^ 63) \<le> sint a - sint b" "sint a - sint b < 2 ^ 63"
  shows "sint (a - b) = sint a - sint b"
  using assms
  by (simp add: sint_word_ariths signed_take_bit_int_eq_self)

lemma sint_uminus_exact:
  fixes a :: "64 word"
  assumes "\<bar>sint a\<bar> < 2 ^ 63"
  shows "sint (- a) = - sint a"
  using assms
  by (simp add: sint_word_ariths signed_take_bit_int_eq_self)

lemma abs_sum_list_le: "\<bar>sum_list (xs :: int list)\<bar> \<le> sum_list (map abs xs)"
  by (induction xs) auto

lemma int64_sum_exact:
  fixes ws :: "64 word list"
  assumes "sum_list (map (\<lambda>w. \<bar>sint w\<bar>) ws) < 2 ^ 63"
  shows "sint (sum_list ws) = sum_list (map sint ws)"
  using assms
proof (induction ws)
  case Nil
  then show ?case by simp
next
  case (Cons w ws)
  from Cons.prems have b: "sum_list (map (\<lambda>w. \<bar>sint w\<bar>) ws) < 2 ^ 63" by simp
  from Cons.IH [OF b] have ih: "sint (sum_list ws) = sum_list (map sint ws)" .
  have "\<bar>sum_list (map sint ws)\<bar> \<le> sum_list (map (\<lambda>w. \<bar>sint w\<bar>) ws)"
    using abs_sum_list_le [of "map sint ws"] by (simp add: o_def)
  with Cons.prems have "\<bar>sint w + sum_list (map sint ws)\<bar> < 2 ^ 63"
    by simp
  then have "- (2 ^ 63) \<le> sint w + sint (sum_list ws)" "sint w + sint (sum_list ws) < 2 ^ 63"
    unfolding ih by linarith+
  from sint_add_exact [OF this] ih show ?case by simp
qed

lemma map_nth_selected_indices_bounded:
  "\<forall>i \<in> set (selected_indices v). i < length es \<Longrightarrow>
   map (\<lambda>i. es ! i) (selected_indices v) = pick es v"
proof (induction es arbitrary: v)
  case Nil
  then have "selected_indices v = []" by (cases "selected_indices v") auto
  then show ?case by simp
next
  case (Cons e es)
  show ?case
  proof (cases v)
    case Nil
    then show ?thesis by (simp add: selected_indices_def)
  next
    case (Cons u v')
    with Cons.prems have "\<forall>i \<in> set (selected_indices v'). i < length es"
      by (auto simp: selected_indices_Cons split: if_splits)
    from Cons.IH [OF this] show ?thesis
      by (simp add: Cons selected_indices_Cons o_def)
  qed
qed

lemma sum_list_pick_le:
  fixes g :: "'a \<Rightarrow> int"
  assumes nonneg: "\<And>x. 0 \<le> g x"
  shows "sum_list (map g (pick es v)) \<le> sum_list (map g es)"
proof (induction es arbitrary: v)
  case Nil
  then show ?case by simp
next
  case (Cons e es)
  have all: "0 \<le> sum_list (map g es)"
    by (rule sum_list_nonneg) (auto simp: nonneg)
  show ?case
  proof (cases v)
    case Nil
    with all nonneg [of e] show ?thesis by simp
  next
    case (Cons u v')
    with Cons.IH [of v'] nonneg [of e] show ?thesis by auto
  qed
qed

lemma of_int_sum_list_rat: "rat_of_int (sum_list xs) = sum_list (map rat_of_int xs)"
  by (induction xs) auto

lemma pick_map: "pick (map f es) v = map f (pick es v)"
  by (induction es v rule: pick.induct) auto

lemma eligible_df_of_int64:
  "eligible_df (map of_int64_project ps) (rat_of_int t) =
     map of_int64_project (eligible_df_int64 ps t)"
  by (simp add: eligible_df_def eligible_df_int64_def filter_map o_def of_int64_project_def
      to_float64_def del: of_int_sint)

lemma int64_range_elem:
  assumes "int64_range es h" "p \<in> set es"
  shows "\<bar>sint (total_pay64 p)\<bar> < 2 ^ 63"
proof -
  have "\<bar>sint (total_pay64 p)\<bar> \<le> sum_list (map (\<lambda>p. \<bar>sint (total_pay64 p)\<bar>) es)"
    using assms(2) by (intro member_le_sum_list) auto
  with assms(1) show ?thesis by (simp add: int64_range_def)
qed

lemma milp_problem_of_int64:
  assumes "int64_range es h"
  shows "milp_problem (map of_int64_project es) (to_float64 h) = milp_problem_int64 es h"
proof -
  have "to_float64 (- total_pay64 p) = - to_float64 (total_pay64 p)" if "p \<in> set es" for p
    using int64_range_elem [OF assms that]
    by (simp add: to_float64_def sint_uminus_exact del: of_int_sint)
  then have "map uminus (map total_pay (map of_int64_project es)) =
      map to_float64 (map uminus (map total_pay64 es))"
    by (simp add: of_int64_project_def)
  then show ?thesis
    by (simp add: milp_problem_def milp_problem_int64_def Let_def of_int64_project_def o_def)
qed

lemma build_results_of_int64:
  assumes rng: "int64_range es h"
  shows "build_results (map of_int64_project es) n (to_float64 h) xs =
     of_int64_outcome (build_results_int64 es n h xs)"
proof (cases "list_ex (\<lambda>i. length es \<le> i) (selected_indices xs)")
  case True
  then show ?thesis
    by (simp add: build_results_def build_results_int64_def of_int64_outcome_def)
next
  case False
  then have bnd: "\<forall>i \<in> set (selected_indices xs). i < length es"
    by (auto simp: list_ex_iff not_le)
  let ?sel = "pick es xs"
  have sel64: "map (\<lambda>i. es ! i) (selected_indices xs) = ?sel"
    by (rule map_nth_selected_indices_bounded [OF bnd])
  from bnd have "\<forall>i \<in> set (selected_indices xs). i < length (map of_int64_project es)"
    by simp
  from map_nth_selected_indices_bounded [OF this]
  have sel: "map (\<lambda>i. map of_int64_project es ! i) (selected_indices xs) =
      map of_int64_project ?sel"
    by (simp add: pick_map)
  have pay_b: "sum_list (map (\<lambda>w. \<bar>sint w\<bar>) (map total_pay64 ?sel)) < 2 ^ 63"
  proof -
    have "sum_list (map (\<lambda>p. \<bar>sint (total_pay64 p)\<bar>) ?sel) \<le>
        sum_list (map (\<lambda>p. \<bar>sint (total_pay64 p)\<bar>) es)"
      by (rule sum_list_pick_le) simp
    with rng show ?thesis by (simp add: int64_range_def o_def)
  qed
  have hrs_le: "sum_list (map (\<lambda>p. \<bar>sint (hours_required64 p)\<bar>) ?sel) \<le>
        sum_list (map (\<lambda>p. \<bar>sint (hours_required64 p)\<bar>) es)"
    by (rule sum_list_pick_le) simp
  with rng have hrs_b: "sum_list (map (\<lambda>w. \<bar>sint w\<bar>) (map hours_required64 ?sel)) < 2 ^ 63"
    by (simp add: int64_range_def o_def, linarith)
  have pay: "sum_list (map (total_pay \<circ> of_int64_project) ?sel) =
      to_float64 (sum_list (map total_pay64 ?sel))"
    unfolding to_float64_def int64_sum_exact [OF pay_b] of_int_sum_list_rat
    by (simp add: of_int64_project_def to_float64_def o_def del: of_int_sint)
  have hrs: "sum_list (map (hours_required \<circ> of_int64_project) ?sel) =
      to_float64 (sum_list (map hours_required64 ?sel))"
    unfolding to_float64_def int64_sum_exact [OF hrs_b] of_int_sum_list_rat
    by (simp add: of_int64_project_def to_float64_def o_def del: of_int_sint)
  have tot: "sint (sum_list (map hours_required64 ?sel)) =
      sum_list (map sint (map hours_required64 ?sel))"
    by (rule int64_sum_exact [OF hrs_b])
  have "\<bar>sum_list (map sint (map hours_required64 ?sel))\<bar> \<le>
      sum_list (map (\<lambda>p. \<bar>sint (hours_required64 p)\<bar>) ?sel)"
    using abs_sum_list_le [of "map sint (map hours_required64 ?sel)"] by (simp add: o_def)
  with hrs_le rng have "\<bar>sint h\<bar> + \<bar>sint (sum_list (map hours_required64 ?sel))\<bar> < 2 ^ 63"
    unfolding tot by (simp add: int64_range_def)
  then have "- (2 ^ 63) \<le> sint h - sint (sum_list (map hours_required64 ?sel))"
    "sint h - sint (sum_list (map hours_required64 ?sel)) < 2 ^ 63"
    by linarith+
  from sint_diff_exact [OF this]
  have rem: "to_float64 h - to_float64 (sum_list (map hours_required64 ?sel)) =
      to_float64 (h - sum_list (map hours_required64 ?sel))"
    by (simp add: to_float64_def del: of_int_sint)
  have pos: "0 < to_float64 h \<longleftrightarrow> 0 < sint h"
    by (simp add: to_float64_def del: of_int_sint)
  from False show ?thesis
    by (simp add: build_results_def build_results_int64_def of_int64_outcome_def Let_def
        sel sel64 pay hrs rem pos of_int64_results_def)
qed

lemma optimize_projects_of_int64:
  assumes "int64_range (eligible_df_int64 ps t) h"
  shows "optimize_projects milp (map of_int64_project ps) (to_float64 h) (rat_of_int t) =
     of_int64_outcome (optimize_projects_int64 milp ps h t)"
  by (simp add: optimize_projects_def optimize_projects_int64_def Let_def
      eligible_df_of_int64 milp_problem_of_int64 [OF assms] build_results_of_int64 [OF assms]
      of_int64_outcome_def
      split: milp_outcome.splits option.splits)

subsection \<open>Small facts about lists\<close>




subsection \<open>The engine run on the concrete inputs\<close>


lemma run_tie_projects:
  "optimize_projects enum_milp tie_projects 5 0 =
     (Some [tie_projects ! 0],
      Some \<lparr>total_earnings = 10, total_hours = 5, available_hours = 5,
            hours_remaining = 0, projects_selected = 1, projects_available = 2,
            utilization = 100\<rparr>,
      None)"
  by code_simp

lemma run_invalid_projects:
  "optimize_projects enum_milp invalid_projects 10 (- 10) =
     (Some invalid_projects,
      Some \<lparr>total_earnings = 80, total_hours = 7, available_hours = 10,
            hours_remaining = 3, projects_selected = 2, projects_available = 2,
            utilization = 70\<rparr>,
      None)"
  by code_simp

lemma run_negative_budget:
  "optimize_projects enum_milp scenario_a (- 1) 0 =
     (None, None, Some ''Optimization failed: The problem is infeasible.'')"
  by code_simp


lemma run_tolerant_scenario_a_90:
  "optimize_projects tolerant_milp scenario_a 80 90 =
     (Some [scenario_a ! 2],
      Some \<lparr>total_earnings = 3200, total_hours = 50, available_hours = 80,
            hours_remaining = 30, projects_selected = 1, projects_available = 4,
            utilization = 125 / 2\<rparr>,
      None)"
  by code_simp


lemma run_near_budget:
  "optimize_projects tolerant_milp near_budget 10 0 =
     (Some near_budget,
      Some \<lparr>total_earnings = 500, total_hours = 1000000001 / 100000000,
            available_hours = 10, hours_remaining = - (1 / 100000000),
            projects_selected = 1, projects_available = 1,
            utilization = 1000000001 / 10000000\<rparr>,
      None)"
  by code_simp

lemma exact_range_scenario_a:
  "exact_range (eligible_df scenario_a 0) 80" "exact_range (eligible_df scenario_a 90) 80"
  "exact_range (eligible_df scenario_a 0) 50"
  by code_simp+

lemma tolerance_ok_scenario_a:
  "hours_tolerance_ok feasibility_tolerance (eligible_df scenario_a 0) 80"
  "hours_tolerance_ok feasibility_tolerance (eligible_df scenario_a 90) 80"
  "hours_tolerance_ok feasibility_tolerance (eligible_df scenario_a 0) 50"
  "pay_tolerance_ok feasibility_tolerance mip_rel_gap (eligible_df scenario_a 0)"
  by code_simp+

lemma mip_rel_gap_nonneg: "0 \<le> mip_rel_gap"
  by (simp add: mip_rel_gap_def)



lemma run_enum_problem_scenario_a:
  "enum_milp (milp_problem (eligible_df scenario_a 0) 80) =
     Returned \<lparr>res_success = True, res_x = Some [0, 1, 1, 0],
               res_message = ''Optimization terminated successfully.''\<rparr>"
  by code_simp

section \<open>The claims\<close>

subsection \<open>C1: optimality\<close>




subsection \<open>C2: feasibility\<close>

text \<open>
  The hours remaining can be negative: the engine has no tolerance and no clamp of its
  own, and the project of 10.00000001 hours, selected at a budget of 10, leaves
  \<open>- 0.00000001\<close> hours.
\<close>

theorem hours_remaining_counterexample:
  "optimize_projects tolerant_milp near_budget 10 0 =
     (Some near_budget,
      Some \<lparr>total_earnings = 500, total_hours = 1000000001 / 100000000,
            available_hours = 10, hours_remaining = - (1 / 100000000),
            projects_selected = 1, projects_available = 1,
            utilization = 1000000001 / 10000000\<rparr>,
      None) \<and>
   hours_remaining \<lparr>total_earnings = 500, total_hours = 1000000001 / 100000000,
            available_hours = 10, hours_remaining = - (1 / 100000000),
            projects_selected = 1, projects_available = 1,
            utilization = 1000000001 / 10000000\<rparr> < 0 \<and>
   (10 :: rat) < sum_list (map hours_required near_budget)"
  using run_near_budget by (simp add: near_budget_def)

text \<open>
  Claim C2, as the code has it. Let the pay and the hours of the eligible projects and
  the budget be whole numbers within the range where the arithmetic of the columns is
  exact, and let the solver meet its contract up to a feasibility tolerance that stays
  below 1 on the size of the hours of the pool and the budget. Whenever the selection
  succeeds, the hours of the selected projects sum to at most the
  budget, the reported total is that sum, and the reported hours remaining are the
  budget minus the total and not negative.
\<close>

theorem selection_within_budget:
  assumes "milp_sound_upto eps gap milp"
    and "hours_tolerance_ok eps (eligible_df ps t) h"
    and "exact_range (eligible_df ps t) h"
    and "optimize_projects milp ps h t = (Some sel, Some res, None)"
  shows "sum_list (map hours_required sel) \<le> h \<and>
         total_hours res = sum_list (map hours_required sel) \<and>
         hours_remaining res = h - total_hours res \<and>
         0 \<le> hours_remaining res"
proof -
  let ?es = "eligible_df ps t"
  from optimize_projects_feasible_upto [OF assms] obtain v where
    len: "length v = length ?es" and bin: "set v \<subseteq> {0, 1}"
    and hrs: "dot (map hours_required ?es) v \<le> h"
    and br: "build_results ?es (length ps) h v = (Some sel, Some res, None)"
    by blast
  from br have sel: "sel = pick ?es v"
    by (simp add: build_results_pick [OF len])
  from hrs have le: "sum_list (map hours_required sel) \<le> h"
    by (simp add: sel dot_pick [OF len bin])
  from build_results_success(2) [OF br]
  have "total_hours res = sum_list (map hours_required sel)"
    and "hours_remaining res = h - total_hours res"
    by simp_all
  with le show ?thesis by simp
qed

text \<open>The theorem at scenario A with threshold 90.\<close>

theorem selection_within_budget_witness:
  "sum_list (map hours_required [scenario_a ! 2]) \<le> 80 \<and>
   hours_remaining \<lparr>total_earnings = 3200, total_hours = 50, available_hours = 80,
            hours_remaining = 30, projects_selected = 1, projects_available = 4,
            utilization = 125 / 2\<rparr> = 80 - 50"
  using selection_within_budget [OF tolerant_milp_sound [OF mip_rel_gap_nonneg]
      tolerance_ok_scenario_a(2) exact_range_scenario_a(2) run_tolerant_scenario_a_90]
  by simp

subsection \<open>C3: the eligibility filter\<close>

text \<open>
  Claim C3. For every candidate list and threshold, the filter returns the candidates at
  exactly the positions whose skill match is greater than or equal to the threshold, in
  their original order; a score equal to the threshold qualifies. With scores
  [95, 80, 90, 75] and threshold 90 it keeps the first and the third candidate.
\<close>

theorem eligibility_filter:
  "eligible_df ps t = nths ps {i. i < length ps \<and> t \<le> skill_match (ps ! i)} \<and>
   subseq (eligible_df ps t) ps \<and>
   set (eligible_df ps t) = {p. p \<in> set ps \<and> t \<le> skill_match p} \<and>
   (map skill_match ps = [95, 80, 90, 75] \<longrightarrow> eligible_df ps 90 = [ps ! 0, ps ! 2])"
proof -
  have "eligible_df ps t = nths ps {i. i < length ps \<and> t \<le> skill_match (ps ! i)}"
    unfolding eligible_df_def by (rule filter_eq_nths)
  moreover have "subseq (eligible_df ps t) ps"
    by (simp add: eligible_df_def)
  moreover have "set (eligible_df ps t) = {p. p \<in> set ps \<and> t \<le> skill_match p}"
    by (auto simp: eligible_df_def)
  moreover have "eligible_df ps 90 = [ps ! 0, ps ! 2]" if "map skill_match ps = [95, 80, 90, 75]"
  proof -
    from that obtain a b c d where ps: "ps = [a, b, c, d]" by (auto simp: map_eq_Cons_conv)
    with that show ?thesis by (simp add: eligible_df_def)
  qed
  ultimately show ?thesis by blast
qed


text \<open>The scenario at the first four sample projects.\<close>

theorem eligibility_filter_witness:
  "map skill_match scenario_a = [95, 80, 90, 75] \<and>
   eligible_df scenario_a 90 = [scenario_a ! 0, scenario_a ! 2]"
proof -
  have m: "map skill_match scenario_a = [95, 80, 90, 75]"
    by (simp add: scenario_a_def create_sample_projects_def)
  with eligibility_filter [of scenario_a 90] show ?thesis by blast
qed

subsection \<open>C4: scenario A\<close>

text \<open>
  Claim C4. For four candidates with pay 2500, 1800, 3200, 1500 and hours 40, 25, 50, 20,
  budget 80 and threshold 0 (every skill match being at least 0), the engine, with a
  solver that meets its contract, returns the second and the third candidate, total pay
  5000, total hours 75 and 5 hours remaining.
\<close>

theorem scenario_a_result:
  assumes "milp_sound milp" and "milp_complete milp"
    and "map total_pay ps = [2500, 1800, 3200, 1500]"
    and "map hours_required ps = [40, 25, 50, 20]"
    and "\<forall>p \<in> set ps. 0 \<le> skill_match p"
  shows "optimize_projects milp ps 80 0 =
     (Some [ps ! 1, ps ! 2],
      Some \<lparr>total_earnings = 5000, total_hours = 75, available_hours = 80,
            hours_remaining = 5, projects_selected = 2, projects_available = 4,
            utilization = 375 / 4\<rparr>,
      None)"
proof -
  from assms(3) obtain a b c d where ps: "ps = [a, b, c, d]"
    by (auto simp: map_eq_Cons_conv)
  from assms(3,4) have f: "total_pay a = 2500" "total_pay b = 1800" "total_pay c = 3200"
    "total_pay d = 1500" "hours_required a = 40" "hours_required b = 25"
    "hours_required c = 50" "hours_required d = 20"
    by (simp_all add: ps)
  from assms(5) have es: "eligible_df ps 0 = ps"
    by (simp add: eligible_df_def)
  then have "eligible_df ps 0 \<noteq> []" by (simp add: ps)
  from optimize_projects_succeeds [OF assms(1,2) this, of 80]
  obtain sel res where ok: "optimize_projects milp ps 80 0 = (Some sel, Some res, None)"
    by auto
  note o = optimize_projects_optimal [OF assms(1) ok]
  have "subseq [b, c] (eligible_df ps 0)" unfolding es by (simp add: ps)
  then have "[b, c] \<in> set (subseqs (eligible_df ps 0))" by simp
  from o(3) [OF this] have lb: "5000 \<le> sum_list (map total_pay sel)"
    by (simp add: f)
  from o(1) have "sel \<in> set (subseqs ps)"
    unfolding es .
  then have "sel \<in> {[a, b, c, d], [a, b, c], [a, b, d], [a, b], [a, c, d], [a, c], [a, d], [a],
      [b, c, d], [b, c], [b, d], [b], [c, d], [c], [d], []}"
    by (simp add: ps Let_def del: in_set_subseqs)
  with lb o(2) have sel: "sel = [b, c]"
    by (auto simp: f)
  from o(4) have "res = \<lparr>total_earnings = 5000, total_hours = 75, available_hours = 80,
            hours_remaining = 5, projects_selected = 2, projects_available = 4,
            utilization = 375 / 4\<rparr>"
    by (simp add: sel f ps)
  with ok sel show ?thesis by (simp add: ps)
qed


text \<open>The theorem at the first four sample projects with the reference solver.\<close>

theorem scenario_a_result_witness:
  "optimize_projects enum_milp scenario_a 80 0 =
     (Some [scenario_a ! 1, scenario_a ! 2],
      Some \<lparr>total_earnings = 5000, total_hours = 75, available_hours = 80,
            hours_remaining = 5, projects_selected = 2, projects_available = 4,
            utilization = 375 / 4\<rparr>,
      None)"
proof -
  have "map total_pay scenario_a = [2500, 1800, 3200, 1500]"
    and "map hours_required scenario_a = [40, 25, 50, 20]"
    and "\<forall>p \<in> set scenario_a. 0 \<le> skill_match p"
    by (simp_all add: scenario_a_def create_sample_projects_def)
  then show ?thesis
    by (rule scenario_a_result [OF enum_milp_sound enum_milp_complete])
qed

subsection \<open>C5: determinism and ties\<close>

text \<open>
  The engine has no rule of its own for ties. With the reference solver, which meets the
  contract, and two projects of equal pay that each fit a budget of 5, it returns the
  first one, which needs 5 hours, although the second one pays the same and needs 3.
\<close>

theorem tie_break_counterexample:
  "milp_sound enum_milp \<and> milp_complete enum_milp \<and>
   optimize_projects enum_milp tie_projects 5 0 =
     (Some [tie_projects ! 0],
      Some \<lparr>total_earnings = 10, total_hours = 5, available_hours = 5,
            hours_remaining = 0, projects_selected = 1, projects_available = 2,
            utilization = 100\<rparr>,
      None) \<and>
   subseq [tie_projects ! 1] (eligible_df tie_projects 0) \<and>
   sum_list (map total_pay [tie_projects ! 1]) = 10 \<and>
   sum_list (map hours_required [tie_projects ! 1]) = 3 \<and>
   sum_list (map hours_required [tie_projects ! 1]) < sum_list (map hours_required [tie_projects ! 0])"
proof -
  have "subseq [tie_projects ! 1] (eligible_df tie_projects 0)"
    by (simp add: tie_projects_def eligible_df_def)
  moreover have "sum_list (map total_pay [tie_projects ! 1]) = 10"
    "sum_list (map hours_required [tie_projects ! 1]) = 3"
    "sum_list (map hours_required [tie_projects ! 1]) < sum_list (map hours_required [tie_projects ! 0])"
    by (simp_all add: tie_projects_def)
  ultimately show ?thesis
    using enum_milp_sound enum_milp_complete run_tie_projects by blast
qed

text \<open>
  Claim C5, as the code has it. The result is a function of the inputs and of the
  solver's answer to the one problem built from them: two solvers that answer that
  problem alike give the same selection and metrics. The selection returned is the list
  of eligible projects at the positions where the solver's vector exceeds one half, in
  input order; between selections of equal pay the solver's answer decides, with no
  preference for fewer hours or earlier items.
\<close>

theorem selection_follows_solver:
  "(milp1 (milp_problem (eligible_df ps t) h) = milp2 (milp_problem (eligible_df ps t) h) \<longrightarrow>
      optimize_projects milp1 ps h t = optimize_projects milp2 ps h t) \<and>
   (optimize_projects milp1 ps h t = (Some sel, Some res, None) \<longrightarrow>
      (\<exists>r v. milp1 (milp_problem (eligible_df ps t) h) = Returned r \<and> res_x r = Some v \<and>
             sel = map (\<lambda>i. eligible_df ps t ! i) (selected_indices v)))"
proof -
  have "optimize_projects milp1 ps h t = optimize_projects milp2 ps h t"
    if "milp1 (milp_problem (eligible_df ps t) h) = milp2 (milp_problem (eligible_df ps t) h)"
    using that by (simp add: optimize_projects_def Let_def)
  moreover have "\<exists>r v. milp1 (milp_problem (eligible_df ps t) h) = Returned r \<and> res_x r = Some v \<and>
             sel = map (\<lambda>i. eligible_df ps t ! i) (selected_indices v)"
    if ok: "optimize_projects milp1 ps h t = (Some sel, Some res, None)"
  proof -
    from ok obtain r v where "milp1 (milp_problem (eligible_df ps t) h) = Returned r"
      "res_x r = Some v"
      "build_results (eligible_df ps t) (length ps) h v = (Some sel, Some res, None)"
      by (rule optimize_projects_success)
    with build_results_success(1) [OF this(3)] show ?thesis by blast
  qed
  ultimately show ?thesis by blast
qed

text \<open>The theorem at the two tied projects.\<close>

theorem selection_follows_solver_witness:
  "optimize_projects enum_milp tie_projects 5 0 =
     optimize_projects (\<lambda>P. enum_milp (milp_problem (eligible_df tie_projects 0) 5))
       tie_projects 5 0 \<and>
   (\<exists>r v. enum_milp (milp_problem (eligible_df tie_projects 0) 5) = Returned r \<and>
          res_x r = Some v \<and>
          [tie_projects ! 0] = map (\<lambda>i. eligible_df tie_projects 0 ! i) (selected_indices v))"
  using selection_follows_solver [of enum_milp tie_projects 0 5
      "\<lambda>P. enum_milp (milp_problem (eligible_df tie_projects 0) 5)" "[tie_projects ! 0]"]
    run_tie_projects
  by blast

subsection \<open>C6: utilization\<close>




subsection \<open>C7: no eligible items\<close>

text \<open>
  Claim C7. For every non-empty candidate list in which no skill match reaches the
  threshold, the call returns no selection, no results and the message about the
  minimum skill match; the empty candidate list gives the message that there are no
  projects, and the two outcomes differ.
\<close>

theorem no_eligible_items:
  assumes "ps \<noteq> []" and "\<forall>p \<in> set ps. skill_match p < t"
  shows "optimize_projects milp ps h t =
           (None, None, Some ''No projects meet the minimum skill match requirement'') \<and>
         optimize_projects milp [] h t = (None, None, Some ''No projects to optimize'') \<and>
         optimize_projects milp ps h t \<noteq> optimize_projects milp [] h t"
proof -
  from assms(2) have "eligible_df ps t = []"
    by (auto simp: eligible_df_def filter_empty_conv)
  with assms(1) have a: "optimize_projects milp ps h t =
           (None, None, Some ''No projects meet the minimum skill match requirement'')"
    by (simp add: optimize_projects_def Let_def)
  have b: "optimize_projects milp [] h t = (None, None, Some ''No projects to optimize'')"
    by (simp add: optimize_projects_def)
  from a b show ?thesis by simp
qed

text \<open>The theorem at scenario A with threshold 96.\<close>

theorem no_eligible_items_witness:
  "optimize_projects enum_milp scenario_a 80 96 =
           (None, None, Some ''No projects meet the minimum skill match requirement'') \<and>
   optimize_projects enum_milp [] 80 96 = (None, None, Some ''No projects to optimize'')"
proof -
  have "scenario_a \<noteq> []" and "\<forall>p \<in> set scenario_a. skill_match p < 96"
    by (simp_all add: scenario_a_def create_sample_projects_def)
  from no_eligible_items [OF this, of enum_milp 80] show ?thesis by blast
qed

subsection \<open>C8: invalid input\<close>

text \<open>
  The engine does not validate its input. Given a project with negative pay and negative
  hours and the threshold -10, it calls the solver and returns a selection.
\<close>

theorem invalid_input_counterexample:
  "total_pay (invalid_projects ! 0) < 0 \<and> hours_required (invalid_projects ! 0) < 0 \<and>
   \<not> (0 \<le> (- 10 :: rat) \<and> (- 10 :: rat) \<le> 100) \<and>
   optimize_projects enum_milp invalid_projects 10 (- 10) =
     (Some invalid_projects,
      Some \<lparr>total_earnings = 80, total_hours = 7, available_hours = 10,
            hours_remaining = 3, projects_selected = 2, projects_available = 2,
            utilization = 70\<rparr>,
      None)"
  using run_invalid_projects by (simp add: invalid_projects_def)

text \<open>
  Claim C8, as the code has it. No input is rejected for its shape. Whenever at least one
  candidate meets the threshold, whatever the signs of pay and hours and whatever the
  threshold, the problem is handed to the solver, and a failure of the call is the
  solver's: it raised, it reported no success, or it reported success with no vector or
  with a vector that marks a position outside the eligible pool.
\<close>

theorem failures_come_from_solver:
  assumes "eligible_df ps t \<noteq> []"
    and "optimize_projects milp ps h t = (None, None, Some msg)"
  shows "(\<exists>e. milp (milp_problem (eligible_df ps t) h) = Raised e \<and>
              msg = ''Error during optimization: '' @ e) \<or>
         (\<exists>r. milp (milp_problem (eligible_df ps t) h) = Returned r \<and> \<not> res_success r \<and>
              msg = ''Optimization failed: '' @ res_message r) \<or>
         (\<exists>r. milp (milp_problem (eligible_df ps t) h) = Returned r \<and> res_success r \<and>
              (res_x r = None \<or>
               (\<exists>v. res_x r = Some v \<and>
                    list_ex (\<lambda>i. length (eligible_df ps t) \<le> i) (selected_indices v))))"
proof -
  from assms(1) have "ps \<noteq> []" by (auto simp: eligible_df_def)
  with assms show ?thesis
    by (auto simp: optimize_projects_def build_results_def Let_def
        split: milp_outcome.splits option.splits if_splits)
qed

text \<open>The theorem at scenario A with budget -1, which the reference solver finds infeasible.\<close>

theorem failures_come_from_solver_witness:
  "(\<exists>e. enum_milp (milp_problem (eligible_df scenario_a 0) (- 1)) = Raised e \<and>
        ''Optimization failed: The problem is infeasible.'' = ''Error during optimization: '' @ e) \<or>
   (\<exists>r. enum_milp (milp_problem (eligible_df scenario_a 0) (- 1)) = Returned r \<and>
        \<not> res_success r \<and>
        ''Optimization failed: The problem is infeasible.'' = ''Optimization failed: '' @ res_message r) \<or>
   (\<exists>r. enum_milp (milp_problem (eligible_df scenario_a 0) (- 1)) = Returned r \<and> res_success r \<and>
        (res_x r = None \<or>
         (\<exists>v. res_x r = Some v \<and>
              list_ex (\<lambda>i. length (eligible_df scenario_a 0) \<le> i) (selected_indices v))))"
proof -
  have "eligible_df scenario_a 0 \<noteq> []"
    by (simp add: scenario_a_def create_sample_projects_def eligible_df_def)
  from failures_come_from_solver [OF this run_negative_budget] show ?thesis .
qed

subsection \<open>C9: monotonicity\<close>




subsection \<open>C10: the shape of the result\<close>

text \<open>
  Claim C10. For every input and every behaviour of the solver, the result is either a
  selection and its results with no error, or no selection and no results with a
  non-empty message. The empty candidate list, the empty eligible pool, a solver that
  raises and a solver that reports no success all give the second shape. A solver that
  reports success with a vector marking only positions of the eligible pool gives the
  first shape, with the selection and the results read off that vector; and the first
  shape arises in no other way.
\<close>

theorem result_triple_shape:
  "((\<exists>sel res. optimize_projects milp ps h t = (Some sel, Some res, None)) \<or>
    (\<exists>msg. msg \<noteq> [] \<and> optimize_projects milp ps h t = (None, None, Some msg))) \<and>
   (ps = [] \<or> eligible_df ps t = [] \<or>
    (\<exists>e. milp (milp_problem (eligible_df ps t) h) = Raised e) \<or>
    (\<exists>r. milp (milp_problem (eligible_df ps t) h) = Returned r \<and> \<not> res_success r) \<longrightarrow>
      (\<exists>msg. msg \<noteq> [] \<and> optimize_projects milp ps h t = (None, None, Some msg))) \<and>
   (eligible_df ps t \<noteq> [] \<and>
    milp (milp_problem (eligible_df ps t) h) = Returned r \<and> res_success r \<and>
    res_x r = Some v \<and>
    \<not> list_ex (\<lambda>i. length (eligible_df ps t) \<le> i) (selected_indices v) \<longrightarrow>
      optimize_projects milp ps h t =
        (Some (map (\<lambda>i. eligible_df ps t ! i) (selected_indices v)),
         Some \<lparr>total_earnings =
                 sum_list (map total_pay (map (\<lambda>i. eligible_df ps t ! i) (selected_indices v))),
               total_hours =
                 sum_list (map hours_required
                   (map (\<lambda>i. eligible_df ps t ! i) (selected_indices v))),
               available_hours = h,
               hours_remaining = h -
                 sum_list (map hours_required
                   (map (\<lambda>i. eligible_df ps t ! i) (selected_indices v))),
               projects_selected = length (selected_indices v),
               projects_available = length ps,
               utilization =
                 (if 0 < h
                  then sum_list (map hours_required
                         (map (\<lambda>i. eligible_df ps t ! i) (selected_indices v))) / h * 100
                  else 0)\<rparr>,
         None)) \<and>
   ((\<exists>sel res. optimize_projects milp ps h t = (Some sel, Some res, None)) \<longleftrightarrow>
    eligible_df ps t \<noteq> [] \<and>
    (\<exists>r v. milp (milp_problem (eligible_df ps t) h) = Returned r \<and> res_success r \<and>
           res_x r = Some v \<and>
           \<not> list_ex (\<lambda>i. length (eligible_df ps t) \<le> i) (selected_indices v)))"
proof -
  let ?es = "eligible_df ps t"
  let ?P = "milp_problem ?es h"
  have shape: "(\<exists>sel res. build_results es n h v = (Some sel, Some res, None)) \<or>
      (\<exists>msg. msg \<noteq> [] \<and> build_results es n h v = (None, None, Some msg))" for es n v
    by (simp add: build_results_def Let_def)
  have dich: "(\<exists>sel res. optimize_projects milp ps h t = (Some sel, Some res, None)) \<or>
    (\<exists>msg. msg \<noteq> [] \<and> optimize_projects milp ps h t = (None, None, Some msg))"
    using shape [of ?es "length ps"]
    by (simp add: optimize_projects_def Let_def none_gt_float_def
        split: milp_outcome.splits option.splits)
  have fail: "\<exists>msg. msg \<noteq> [] \<and> optimize_projects milp ps h t = (None, None, Some msg)"
    if "ps = [] \<or> ?es = [] \<or> (\<exists>e. milp ?P = Raised e) \<or>
      (\<exists>r. milp ?P = Returned r \<and> \<not> res_success r)"
    using that by (auto simp: optimize_projects_def Let_def)
  have succ: "optimize_projects milp ps h t =
        (Some (map (\<lambda>i. ?es ! i) (selected_indices v)),
         Some \<lparr>total_earnings =
                 sum_list (map total_pay (map (\<lambda>i. ?es ! i) (selected_indices v))),
               total_hours =
                 sum_list (map hours_required (map (\<lambda>i. ?es ! i) (selected_indices v))),
               available_hours = h,
               hours_remaining = h -
                 sum_list (map hours_required (map (\<lambda>i. ?es ! i) (selected_indices v))),
               projects_selected = length (selected_indices v),
               projects_available = length ps,
               utilization =
                 (if 0 < h
                  then sum_list (map hours_required
                         (map (\<lambda>i. ?es ! i) (selected_indices v))) / h * 100
                  else 0)\<rparr>,
         None)"
    if ne: "?es \<noteq> []" and r: "milp ?P = Returned r" "res_success r" "res_x r = Some v"
      and idx: "\<not> list_ex (\<lambda>i. length ?es \<le> i) (selected_indices v)"
    for r v
  proof -
    from ne have "ps \<noteq> []" by (auto simp: eligible_df_def)
    with ne r idx show ?thesis
      by (simp add: optimize_projects_def build_results_def Let_def)
  qed
  have iff: "(\<exists>sel res. optimize_projects milp ps h t = (Some sel, Some res, None)) \<longleftrightarrow>
    ?es \<noteq> [] \<and>
    (\<exists>r v. milp ?P = Returned r \<and> res_success r \<and> res_x r = Some v \<and>
           \<not> list_ex (\<lambda>i. length ?es \<le> i) (selected_indices v))"
  proof
    assume "\<exists>sel res. optimize_projects milp ps h t = (Some sel, Some res, None)"
    then obtain sel res where ok: "optimize_projects milp ps h t = (Some sel, Some res, None)"
      by blast
    then obtain r v where ne: "?es \<noteq> []" and r: "milp ?P = Returned r" "res_success r"
      "res_x r = Some v"
      and br: "build_results ?es (length ps) h v = (Some sel, Some res, None)"
      by (rule optimize_projects_success)
    from br have "\<not> list_ex (\<lambda>i. length ?es \<le> i) (selected_indices v)"
      by (auto simp: build_results_def Let_def split: if_splits)
    with ne r show "?es \<noteq> [] \<and>
      (\<exists>r v. milp ?P = Returned r \<and> res_success r \<and> res_x r = Some v \<and>
           \<not> list_ex (\<lambda>i. length ?es \<le> i) (selected_indices v))"
      by blast
  next
    assume "?es \<noteq> [] \<and>
      (\<exists>r v. milp ?P = Returned r \<and> res_success r \<and> res_x r = Some v \<and>
           \<not> list_ex (\<lambda>i. length ?es \<le> i) (selected_indices v))"
    then obtain r v where "?es \<noteq> []" "milp ?P = Returned r" "res_success r" "res_x r = Some v"
      "\<not> list_ex (\<lambda>i. length ?es \<le> i) (selected_indices v)"
      by blast
    from succ [OF this] show "\<exists>sel res. optimize_projects milp ps h t = (Some sel, Some res, None)"
      by blast
  qed
  from dich fail succ iff show ?thesis by blast
qed

text \<open>The theorem at scenario A with budget -1, which fails, and with budget 80, which succeeds.\<close>

theorem result_triple_shape_witness:
  "(\<exists>msg. msg \<noteq> [] \<and> optimize_projects enum_milp scenario_a (- 1) 0 = (None, None, Some msg)) \<and>
   optimize_projects enum_milp scenario_a 80 0 =
     (Some [scenario_a ! 1, scenario_a ! 2],
      Some \<lparr>total_earnings = 5000, total_hours = 75, available_hours = 80,
            hours_remaining = 5, projects_selected = 2, projects_available = 4,
            utilization = 375 / 4\<rparr>,
      None)"
proof -
  have "enum_milp (milp_problem (eligible_df scenario_a 0) (- 1)) =
      Returned \<lparr>res_success = False, res_x = None, res_message = ''The problem is infeasible.''\<rparr>"
    by code_simp
  then have "\<exists>r. enum_milp (milp_problem (eligible_df scenario_a 0) (- 1)) = Returned r \<and>
      \<not> res_success r"
    by simp
  with result_triple_shape [of enum_milp scenario_a "- 1" 0]
  have a: "\<exists>msg. msg \<noteq> [] \<and>
      optimize_projects enum_milp scenario_a (- 1) 0 = (None, None, Some msg)"
    by blast
  have es: "eligible_df scenario_a 0 = scenario_a"
    and sa: "scenario_a = [create_sample_projects ! 0, create_sample_projects ! 1,
      create_sample_projects ! 2, create_sample_projects ! 3]"
    by (simp_all add: scenario_a_def create_sample_projects_def eligible_df_def)
  have idx: "selected_indices [0, 1, 1, 0] = [1, 2]"
    by (simp add: selected_indices_def upt_rec)
  have ne: "eligible_df scenario_a 0 \<noteq> []"
    and inr: "\<not> list_ex (\<lambda>i. length (eligible_df scenario_a 0) \<le> i) (selected_indices [0, 1, 1, 0])"
    unfolding es idx by (simp_all add: sa)
  from result_triple_shape [of enum_milp scenario_a 80 0
      "\<lparr>res_success = True, res_x = Some [0, 1, 1, 0],
        res_message = ''Optimization terminated successfully.''\<rparr>" "[0, 1, 1, 0]"]
    ne run_enum_problem_scenario_a inr
  have "optimize_projects enum_milp scenario_a 80 0 =
        (Some (map (\<lambda>i. eligible_df scenario_a 0 ! i) (selected_indices [0, 1, 1, 0])),
         Some \<lparr>total_earnings =
                 sum_list (map total_pay
                   (map (\<lambda>i. eligible_df scenario_a 0 ! i) (selected_indices [0, 1, 1, 0]))),
               total_hours =
                 sum_list (map hours_required
                   (map (\<lambda>i. eligible_df scenario_a 0 ! i) (selected_indices [0, 1, 1, 0]))),
               available_hours = 80,
               hours_remaining = 80 -
                 sum_list (map hours_required
                   (map (\<lambda>i. eligible_df scenario_a 0 ! i) (selected_indices [0, 1, 1, 0]))),
               projects_selected = length (selected_indices [0, 1, 1, 0 :: rat]),
               projects_available = length scenario_a,
               utilization =
                 (if 0 < (80 :: rat)
                  then sum_list (map hours_required
                         (map (\<lambda>i. eligible_df scenario_a 0 ! i)
                            (selected_indices [0, 1, 1, 0]))) / 80 * 100
                  else 0)\<rparr>,
         None)"
    by simp
  then have b: "optimize_projects enum_milp scenario_a 80 0 =
     (Some [scenario_a ! 1, scenario_a ! 2],
      Some \<lparr>total_earnings = 5000, total_hours = 75, available_hours = 80,
            hours_remaining = 5, projects_selected = 2, projects_available = 4,
            utilization = 375 / 4\<rparr>,
      None)"
    unfolding es idx by (simp add: sa create_sample_projects_def)
  from a b show ?thesis by blast
qed

end
